theory Spec2Isabelle
  imports Main "HOL-Library.Word"
begin

section \<open>The external scanner of tree-sitter-yuho (src/scanner.c)\<close>

subsection \<open>Token kinds and scanner state\<close>

text \<open>\<^verbatim>\<open>enum TokenType\<close>, in declaration order.\<close>

datatype TokenType = STRING_CONTENT | INTERPOLATION_START | INTERPOLATION_END | ERROR_SENTINEL

text \<open>\<^verbatim>\<open>typedef struct { bool in_string; bool in_interpolation;
  uint8_t interpolation_depth; } Scanner\<close>. The counter is an 8-bit word, so that
  \<^verbatim>\<open>++\<close> and \<^verbatim>\<open>--\<close> wrap around as they do in C.\<close>

record Scanner =
  in_string :: bool
  in_interpolation :: bool
  interpolation_depth :: "8 word"

type_synonym byte = "8 word"

text \<open>\<^verbatim>\<open>tree_sitter_yuho_external_scanner_create\<close>: the freshly allocated state.\<close>

definition tree_sitter_yuho_external_scanner_create :: Scanner where
  "tree_sitter_yuho_external_scanner_create =
     \<lparr>in_string = False, in_interpolation = False, interpolation_depth = 0\<rparr>"

text \<open>\<^verbatim>\<open>tree_sitter_yuho_external_scanner_serialize\<close> writes \<^verbatim>\<open>buffer[0]\<close>,
  \<^verbatim>\<open>buffer[1]\<close>, \<^verbatim>\<open>buffer[2]\<close> and returns the count 3. The model returns the bytes
  written; the returned count is the length of that list. The cast of a \<^verbatim>\<open>bool\<close> to
  \<^verbatim>\<open>char\<close> gives 0 or 1.\<close>

definition tree_sitter_yuho_external_scanner_serialize :: "Scanner \<Rightarrow> byte list" where
  "tree_sitter_yuho_external_scanner_serialize scanner =
     [of_bool (in_string scanner), of_bool (in_interpolation scanner),
      interpolation_depth scanner]"

text \<open>\<^verbatim>\<open>tree_sitter_yuho_external_scanner_deserialize\<close>: the pair of \<^verbatim>\<open>buffer\<close> and
  \<^verbatim>\<open>length\<close> is a byte list of that length. A \<^verbatim>\<open>char\<close> assigned to a \<^verbatim>\<open>bool\<close> is
  true exactly when it is not zero.\<close>

definition tree_sitter_yuho_external_scanner_deserialize :: "Scanner \<Rightarrow> byte list \<Rightarrow> Scanner" where
  "tree_sitter_yuho_external_scanner_deserialize scanner buffer =
     (if length buffer \<ge> 3 then
        scanner\<lparr>in_string := (buffer ! 0 \<noteq> 0),
                in_interpolation := (buffer ! 1 \<noteq> 0),
                interpolation_depth := buffer ! 2\<rparr>
      else
        scanner\<lparr>in_string := False, in_interpolation := False, interpolation_depth := 0\<rparr>)"

subsection \<open>The host cursor\<close>

text \<open>Modelled from the spec: the \<^verbatim>\<open>TSLexer\<close> of the host parsing engine is declared in
  \<^verbatim>\<open>tree_sitter/parser.h\<close>, which is not part of the sources. The spec asks of it: peek
  the current character, advance-and-consume, advance-and-skip (excluded from the token
  span), detect end-of-input. The cursor is the text consumed into the current token
  (\<open>token\<close>, the span reported when the scanner succeeds: the scanner never calls
  \<^verbatim>\<open>mark_end\<close>), the text still ahead (\<open>rest\<close>) and the \<^verbatim>\<open>result_symbol\<close> field.
  Characters are code points (\<^verbatim>\<open>int32_t\<close>); at the end of input the lookahead is 0 and
  advancing does nothing.\<close>

record TSLexer =
  token :: "int list"
  rest :: "int list"
  result_symbol :: TokenType

definition lookahead :: "TSLexer \<Rightarrow> int" where
  "lookahead lexer = (case rest lexer of [] \<Rightarrow> 0 | c # _ \<Rightarrow> c)"

definition eof :: "TSLexer \<Rightarrow> bool" where
  "eof lexer = (rest lexer = [])"

definition lexer_advance :: "TSLexer \<Rightarrow> bool \<Rightarrow> TSLexer" where
  "lexer_advance lexer skp =
     (case rest lexer of
        [] \<Rightarrow> lexer
      | c # cs \<Rightarrow> if skp then lexer\<lparr>token := [], rest := cs\<rparr>
                  else lexer\<lparr>token := token lexer @ [c], rest := cs\<rparr>)"

text \<open>\<^verbatim>\<open>static void advance(TSLexer *lexer)\<close> and \<^verbatim>\<open>static void skip(TSLexer *lexer)\<close>.\<close>

definition advance :: "TSLexer \<Rightarrow> TSLexer" where
  "advance lexer = lexer_advance lexer False"

definition skip :: "TSLexer \<Rightarrow> TSLexer" where
  "skip lexer = lexer_advance lexer True"

text \<open>The characters the scanner compares the lookahead with.\<close>

abbreviation CH_NUL :: int where "CH_NUL \<equiv> 0"
abbreviation CH_QUOTE :: int where "CH_QUOTE \<equiv> 34"
abbreviation CH_DOLLAR :: int where "CH_DOLLAR \<equiv> 36"
abbreviation CH_BACKSLASH :: int where "CH_BACKSLASH \<equiv> 92"
abbreviation CH_LBRACE :: int where "CH_LBRACE \<equiv> 123"
abbreviation CH_RBRACE :: int where "CH_RBRACE \<equiv> 125"

subsection \<open>String content\<close>

text \<open>One pass through the body of the \<^verbatim>\<open>while (true)\<close> loop of
  \<^verbatim>\<open>scan_string_content\<close> ends in \<^verbatim>\<open>break\<close>, in \<^verbatim>\<open>continue\<close> (or the end of the
  body) with a new cursor and a new \<^verbatim>\<open>has_content\<close>, or in \<^verbatim>\<open>return true\<close> with the
  scanner and the cursor updated.\<close>

datatype loop_exit = Break | Continue TSLexer bool | Return_true Scanner TSLexer

definition scan_string_content_body :: "TSLexer \<Rightarrow> Scanner \<Rightarrow> bool \<Rightarrow> loop_exit" where
  "scan_string_content_body lexer scanner has_content =
     (if lookahead lexer = CH_NUL \<or> eof lexer then Break
      else if lookahead lexer = CH_QUOTE then Break
      else if lookahead lexer = CH_BACKSLASH then
        (let lexer1 = advance lexer in
         if lookahead lexer1 \<noteq> CH_NUL \<and> \<not> eof lexer1
         then Continue (advance lexer1) True
         else Continue lexer1 has_content)
      else if lookahead lexer = CH_DOLLAR then
        (let lexer1 = advance lexer in
         if lookahead lexer1 = CH_LBRACE
         then Return_true
                (scanner\<lparr>in_interpolation := True, interpolation_depth := 1\<rparr>)
                (advance (lexer1\<lparr>result_symbol := INTERPOLATION_START\<rparr>))
         else Continue lexer1 True)
      else Continue (advance lexer) True)"

text \<open>The loop, and what follows it. The result is the returned \<^verbatim>\<open>bool\<close> with the
  scanner and the cursor as the call leaves them; \<open>None\<close> stands for a loop that never
  ends.\<close>

partial_function (option) scan_string_content_loop ::
  "TSLexer \<Rightarrow> Scanner \<Rightarrow> bool \<Rightarrow> (bool \<times> Scanner \<times> TSLexer) option" where
  "scan_string_content_loop lexer scanner has_content =
     (case scan_string_content_body lexer scanner has_content of
        Break \<Rightarrow>
          Some (if has_content
                then (True, scanner, lexer\<lparr>result_symbol := STRING_CONTENT\<rparr>)
                else (False, scanner, lexer))
      | Continue lexer' has_content' \<Rightarrow> scan_string_content_loop lexer' scanner has_content'
      | Return_true scanner' lexer' \<Rightarrow> Some (True, scanner', lexer'))"

declare scan_string_content_loop.simps [code]

definition scan_string_content :: "TSLexer \<Rightarrow> Scanner \<Rightarrow> (bool \<times> Scanner \<times> TSLexer) option" where
  "scan_string_content lexer scanner = scan_string_content_loop lexer scanner False"

subsection \<open>Interpolation end\<close>

definition scan_interpolation_end :: "TSLexer \<Rightarrow> Scanner \<Rightarrow> bool \<times> Scanner \<times> TSLexer" where
  "scan_interpolation_end lexer scanner =
     (if in_interpolation scanner \<and> lookahead lexer = CH_RBRACE then
        (let scanner1 = scanner\<lparr>interpolation_depth := interpolation_depth scanner - 1\<rparr> in
         if interpolation_depth scanner1 = 0
         then (True, scanner1\<lparr>in_interpolation := False\<rparr>,
               (advance lexer)\<lparr>result_symbol := INTERPOLATION_END\<rparr>)
         else (False, scanner1, lexer))
      else (False, scanner, lexer))"

subsection \<open>The scan entry point\<close>

text \<open>\<^verbatim>\<open>while (iswspace(lexer->lookahead)) skip(lexer);\<close> The C library's
  \<^verbatim>\<open>iswspace\<close> depends on the locale and is a parameter of the model.\<close>

partial_function (option) skip_whitespace :: "(int \<Rightarrow> bool) \<Rightarrow> TSLexer \<Rightarrow> TSLexer option" where
  "skip_whitespace iswspace lexer =
     (if iswspace (lookahead lexer) then skip_whitespace iswspace (skip lexer)
      else Some lexer)"

declare skip_whitespace.simps [code]

text \<open>\<^verbatim>\<open>valid_symbols\<close> is an array of \<^verbatim>\<open>bool\<close> indexed by token kind.\<close>

definition tree_sitter_yuho_external_scanner_scan ::
  "(int \<Rightarrow> bool) \<Rightarrow> Scanner \<Rightarrow> TSLexer \<Rightarrow> (TokenType \<Rightarrow> bool) \<Rightarrow> (bool \<times> Scanner \<times> TSLexer) option" where
  "tree_sitter_yuho_external_scanner_scan iswspace scanner lexer valid_symbols =
     (case skip_whitespace iswspace lexer of
        None \<Rightarrow> None
      | Some lexer1 \<Rightarrow>
          (case (if valid_symbols INTERPOLATION_END \<and> in_interpolation scanner
                 then scan_interpolation_end lexer1 scanner
                 else (False, scanner, lexer1)) of
             (found, scanner1, lexer2) \<Rightarrow>
               if found then Some (True, scanner1, lexer2)
               else
                 (let scanner2 =
                        (if in_interpolation scanner1 \<and> lookahead lexer2 = CH_LBRACE
                         then scanner1\<lparr>interpolation_depth := interpolation_depth scanner1 + 1\<rparr>
                         else scanner1)
                  in if valid_symbols STRING_CONTENT \<and> in_string scanner2
                     then scan_string_content lexer2 scanner2
                     else Some (False, scanner2, lexer2))))"

subsection \<open>Auxiliary notions for the statements\<close>

text \<open>A character that \<^verbatim>\<open>scan_string_content\<close> consumes as regular content: none of
  NUL (which the loop takes for the end of input), the closing quote, the backslash and
  the dollar sign.\<close>

definition plain_char :: "int \<Rightarrow> bool" where
  "plain_char c = (c \<noteq> CH_NUL \<and> c \<noteq> CH_QUOTE \<and> c \<noteq> CH_BACKSLASH \<and> c \<noteq> CH_DOLLAR)"

text \<open>The invariant of the scanner state: the depth is zero whenever no interpolation is
  active.\<close>

definition scanner_invariant :: "Scanner \<Rightarrow> bool" where
  "scanner_invariant scanner = (\<not> in_interpolation scanner \<longrightarrow> interpolation_depth scanner = 0)"

text \<open>The states the host can reach: the created one, the outcome of a scan call (on any
  cursor, with any set of valid symbols) from a reachable state, and a reachable state
  saved and restored.\<close>

inductive reachable :: "(int \<Rightarrow> bool) \<Rightarrow> Scanner \<Rightarrow> bool" for iswspace where
  created: "reachable iswspace tree_sitter_yuho_external_scanner_create"
| scanned: "reachable iswspace scanner \<Longrightarrow>
    tree_sitter_yuho_external_scanner_scan iswspace scanner lexer valid_symbols
      = Some (found, scanner', lexer') \<Longrightarrow>
    reachable iswspace scanner'"
| restored: "reachable iswspace scanner \<Longrightarrow>
    reachable iswspace
      (tree_sitter_yuho_external_scanner_deserialize scanner0
         (tree_sitter_yuho_external_scanner_serialize scanner))"

text \<open>Concrete data for the runs below: the white-space class of the C locale (space,
  horizontal and vertical tab, newline, form feed, carriage return) and three
  \<^verbatim>\<open>valid_symbols\<close> arrays.\<close>

definition iswspace_C :: "int \<Rightarrow> bool" where
  "iswspace_C c = (c = 32 \<or> (9 \<le> c \<and> c \<le> 13))"

definition all_valid :: "TokenType \<Rightarrow> bool" where
  "all_valid k = True"

definition string_content_valid :: "TokenType \<Rightarrow> bool" where
  "string_content_valid k = (k = STRING_CONTENT)"

definition interpolation_end_valid :: "TokenType \<Rightarrow> bool" where
  "interpolation_end_valid k = (k = INTERPOLATION_END)"

section \<open>Basic facts\<close>

subsection \<open>The cursor\<close>

lemma lookahead_Cons [simp]: "rest lexer = c # cs \<Longrightarrow> lookahead lexer = c"
  by (simp add: lookahead_def)

lemma lookahead_Nil [simp]: "rest lexer = [] \<Longrightarrow> lookahead lexer = 0"
  by (simp add: lookahead_def)

lemma advance_Cons [simp]:
  "rest lexer = c # cs \<Longrightarrow> advance lexer = lexer\<lparr>token := token lexer @ [c], rest := cs\<rparr>"
  by (simp add: advance_def lexer_advance_def)

lemma skip_Cons [simp]:
  "rest lexer = c # cs \<Longrightarrow> skip lexer = lexer\<lparr>token := [], rest := cs\<rparr>"
  by (simp add: skip_def lexer_advance_def)

lemma skip_Nil [simp]: "rest lexer = [] \<Longrightarrow> skip lexer = lexer"
  by (simp add: skip_def lexer_advance_def)

subsection \<open>The white-space loop\<close>

lemma skip_whitespace_stop:
  "\<not> iswspace (lookahead lexer) \<Longrightarrow> skip_whitespace iswspace lexer = Some lexer"
  by (subst skip_whitespace.simps) simp

lemma skip_whitespace_step:
  "iswspace (lookahead lexer) \<Longrightarrow>
   skip_whitespace iswspace lexer = skip_whitespace iswspace (skip lexer)"
  by (subst skip_whitespace.simps) simp

lemma skip_whitespace_terminates:
  "\<not> iswspace 0 \<Longrightarrow>
   \<exists>lexer'. skip_whitespace iswspace lexer = Some lexer' \<and> \<not> iswspace (lookahead lexer')
     \<and> result_symbol lexer' = result_symbol lexer"
proof (induction "rest lexer" arbitrary: lexer)
  case Nil
  then have "\<not> iswspace (lookahead lexer)" by (simp add: lookahead_def)
  then show ?case by (simp add: skip_whitespace_stop)
next
  case (Cons c cs)
  show ?case
  proof (cases "iswspace c")
    case True
    let ?l = "lexer\<lparr>token := [], rest := cs\<rparr>"
    have "cs = rest ?l" by simp
    from Cons.hyps(1) [OF this Cons.prems]
    obtain lexer' where "skip_whitespace iswspace ?l = Some lexer'"
      "\<not> iswspace (lookahead lexer')" "result_symbol lexer' = result_symbol ?l"
      by blast
    moreover have "skip_whitespace iswspace lexer = skip_whitespace iswspace ?l"
      using True Cons.hyps(2) [symmetric] by (simp add: skip_whitespace_step)
    ultimately show ?thesis by simp
  next
    case False
    then have "\<not> iswspace (lookahead lexer)" using Cons.hyps(2) [symmetric] by simp
    then show ?thesis by (simp add: skip_whitespace_stop)
  qed
qed

lemma skip_whitespace_run:
  "rest lexer = ws @ r \<Longrightarrow> \<forall>c\<in>set ws. iswspace c \<Longrightarrow>
   \<not> iswspace (case r of [] \<Rightarrow> 0 | c # _ \<Rightarrow> c) \<Longrightarrow>
   skip_whitespace iswspace lexer =
     Some (if ws = [] then lexer else lexer\<lparr>token := [], rest := r\<rparr>)"
proof (induction ws arbitrary: lexer)
  case Nil
  then have "\<not> iswspace (lookahead lexer)" by (simp add: lookahead_def)
  then show ?case by (simp add: skip_whitespace_stop)
next
  case (Cons w ws)
  let ?l = "lexer\<lparr>token := [], rest := ws @ r\<rparr>"
  have step: "skip_whitespace iswspace lexer = skip_whitespace iswspace ?l"
    using Cons.prems by (simp add: skip_whitespace_step)
  have "skip_whitespace iswspace ?l = Some (if ws = [] then ?l else ?l\<lparr>token := [], rest := r\<rparr>)"
    using Cons.prems by (intro Cons.IH) auto
  then show ?case using step by simp
qed

lemma skip_whitespace_fresh:
  "token lexer = [] \<Longrightarrow> rest lexer = ws @ r \<Longrightarrow> \<forall>c\<in>set ws. iswspace c \<Longrightarrow>
   \<not> iswspace (case r of [] \<Rightarrow> 0 | c # _ \<Rightarrow> c) \<Longrightarrow>
   skip_whitespace iswspace lexer = Some (lexer\<lparr>rest := r\<rparr>)"
proof -
  assume a: "token lexer = []" "rest lexer = ws @ r" "\<forall>c\<in>set ws. iswspace c"
    "\<not> iswspace (case r of [] \<Rightarrow> 0 | c # _ \<Rightarrow> c)"
  have "(if ws = [] then lexer else lexer\<lparr>token := [], rest := r\<rparr>) = lexer\<lparr>rest := r\<rparr>"
    using a(1,2) by (cases lexer) simp
  then show ?thesis using skip_whitespace_run [OF a(2,3,4)] by simp
qed

subsection \<open>One pass of the string-content loop\<close>

lemma body_progress:
  "scan_string_content_body lexer scanner hc = Continue lexer' hc' \<Longrightarrow>
   length (rest lexer') < length (rest lexer)"
  by (cases "rest lexer"; cases "tl (rest lexer)")
     (auto simp: scan_string_content_body_def eof_def Let_def split: if_splits)

lemma body_plain:
  "rest lexer = c # cs \<Longrightarrow> plain_char c \<Longrightarrow>
   scan_string_content_body lexer scanner hc =
     Continue (lexer\<lparr>token := token lexer @ [c], rest := cs\<rparr>) True"
  by (simp add: scan_string_content_body_def plain_char_def eof_def)

lemma body_escape:
  "rest lexer = CH_BACKSLASH # c # cs \<Longrightarrow> c \<noteq> CH_NUL \<Longrightarrow>
   scan_string_content_body lexer scanner hc =
     Continue (lexer\<lparr>token := token lexer @ [CH_BACKSLASH, c], rest := cs\<rparr>) True"
  by (simp add: scan_string_content_body_def eof_def Let_def)

lemma body_escape_end:
  "rest lexer = [CH_BACKSLASH] \<Longrightarrow>
   scan_string_content_body lexer scanner hc =
     Continue (lexer\<lparr>token := token lexer @ [CH_BACKSLASH], rest := []\<rparr>) hc"
  by (simp add: scan_string_content_body_def eof_def Let_def)

lemma body_interpolation:
  "rest lexer = CH_DOLLAR # CH_LBRACE # cs \<Longrightarrow>
   scan_string_content_body lexer scanner hc =
     Return_true (scanner\<lparr>in_interpolation := True, interpolation_depth := 1\<rparr>)
       (lexer\<lparr>token := token lexer @ [CH_DOLLAR, CH_LBRACE], rest := cs,
              result_symbol := INTERPOLATION_START\<rparr>)"
  by (simp add: scan_string_content_body_def eof_def Let_def)

lemma body_quote:
  "rest lexer = CH_QUOTE # cs \<Longrightarrow> scan_string_content_body lexer scanner hc = Break"
  by (simp add: scan_string_content_body_def eof_def)

lemma body_eof:
  "rest lexer = [] \<Longrightarrow> scan_string_content_body lexer scanner hc = Break"
  by (simp add: scan_string_content_body_def eof_def)

lemma body_scanner:
  "scan_string_content_body lexer scanner hc = Return_true scanner' lexer' \<Longrightarrow>
   scanner' = scanner\<lparr>in_interpolation := True, interpolation_depth := 1\<rparr>
   \<and> result_symbol lexer' = INTERPOLATION_START"
  by (cases "rest lexer"; cases "tl (rest lexer)")
     (auto simp: scan_string_content_body_def eof_def Let_def split: if_splits)

subsection \<open>The string-content loop\<close>

text \<open>Every pass that continues leaves fewer characters ahead, which gives an induction
  principle for the loop.\<close>

lemma loop_induct:
  assumes step: "\<And>lexer hc. (\<And>lexer' hc'. scan_string_content_body lexer scanner hc = Continue lexer' hc' \<Longrightarrow> P lexer' hc') \<Longrightarrow> P lexer hc"
  shows "P lexer hc"
proof (induction "length (rest lexer)" arbitrary: lexer hc rule: less_induct)
  case less
  show ?case
    by (rule step) (rule less, rule body_progress)
qed

lemma loop_Break:
  "scan_string_content_body lexer scanner hc = Break \<Longrightarrow>
   scan_string_content_loop lexer scanner hc =
     Some (if hc then (True, scanner, lexer\<lparr>result_symbol := STRING_CONTENT\<rparr>)
           else (False, scanner, lexer))"
  by (subst scan_string_content_loop.simps) simp

lemma loop_Continue:
  "scan_string_content_body lexer scanner hc = Continue lexer' hc' \<Longrightarrow>
   scan_string_content_loop lexer scanner hc = scan_string_content_loop lexer' scanner hc'"
  by (subst scan_string_content_loop.simps) simp

lemma loop_Return_true:
  "scan_string_content_body lexer scanner hc = Return_true scanner' lexer' \<Longrightarrow>
   scan_string_content_loop lexer scanner hc = Some (True, scanner', lexer')"
  by (subst scan_string_content_loop.simps) simp

lemma loop_terminates: "\<exists>r. scan_string_content_loop lexer scanner hc = Some r"
proof (induction lexer hc rule: loop_induct [where scanner = scanner])
  case (1 lexer hc)
  show ?case
  proof (cases "scan_string_content_body lexer scanner hc")
    case Break
    then show ?thesis by (auto simp: loop_Break)
  next
    case (Continue lexer' hc')
    then show ?thesis using 1 by (simp add: loop_Continue)
  next
    case (Return_true scanner' lexer')
    then show ?thesis by (auto simp: loop_Return_true)
  qed
qed

lemma loop_plain_run:
  "rest lexer = content @ r \<Longrightarrow> \<forall>c\<in>set content. plain_char c \<Longrightarrow>
   scan_string_content_loop lexer scanner hc =
     scan_string_content_loop (lexer\<lparr>token := token lexer @ content, rest := r\<rparr>) scanner
       (hc \<or> content \<noteq> [])"
proof (induction content arbitrary: lexer hc)
  case Nil
  then have "lexer\<lparr>token := token lexer @ [], rest := r\<rparr> = lexer" by simp
  then show ?case by simp
next
  case (Cons c content)
  let ?l = "lexer\<lparr>token := token lexer @ [c], rest := content @ r\<rparr>"
  have "scan_string_content_loop lexer scanner hc = scan_string_content_loop ?l scanner True"
    using Cons.prems by (intro loop_Continue body_plain) auto
  also have "\<dots> = scan_string_content_loop (?l\<lparr>token := token ?l @ content, rest := r\<rparr>) scanner
                    (True \<or> content \<noteq> [])"
    using Cons.prems by (intro Cons.IH) auto
  finally show ?case by simp
qed

lemma loop_result:
  "scan_string_content_loop lexer scanner hc = Some (found, scanner', lexer') \<Longrightarrow>
   (found \<and> scanner' = scanner\<lparr>in_interpolation := True, interpolation_depth := 1\<rparr>
      \<and> result_symbol lexer' = INTERPOLATION_START)
   \<or> (found \<and> scanner' = scanner \<and> result_symbol lexer' = STRING_CONTENT)
   \<or> (\<not> found \<and> scanner' = scanner)"
proof (induction lexer hc rule: loop_induct [where scanner = scanner])
  case (1 lexer hc)
  show ?case
  proof (cases "scan_string_content_body lexer scanner hc")
    case Break
    then show ?thesis using "1.prems" by (auto simp: loop_Break split: if_splits)
  next
    case (Continue lexer1 hc1)
    then show ?thesis using "1.prems" "1.IH" by (simp add: loop_Continue)
  next
    case (Return_true scanner1 lexer1)
    then show ?thesis using "1.prems" body_scanner [OF Return_true]
      by (auto simp: loop_Return_true)
  qed
qed

lemma loop_interpolation:
  "rest lexer = CH_DOLLAR # CH_LBRACE # cs \<Longrightarrow>
   scan_string_content_loop lexer scanner hc =
     Some (True, scanner\<lparr>in_interpolation := True, interpolation_depth := 1\<rparr>,
           lexer\<lparr>token := token lexer @ [CH_DOLLAR, CH_LBRACE], rest := cs,
                  result_symbol := INTERPOLATION_START\<rparr>)"
  by (rule loop_Return_true) (rule body_interpolation)

lemma loop_escape_end:
  "rest lexer = [CH_BACKSLASH] \<Longrightarrow>
   scan_string_content_loop lexer scanner hc =
     Some (if hc then (True, scanner,
                       lexer\<lparr>token := token lexer @ [CH_BACKSLASH], rest := [],
                              result_symbol := STRING_CONTENT\<rparr>)
           else (False, scanner, lexer\<lparr>token := token lexer @ [CH_BACKSLASH], rest := []\<rparr>))"
  by (simp add: loop_Continue [OF body_escape_end] loop_Break body_eof)

subsection \<open>The codec, the invariant and the scan entry point\<close>

lemma deserialize_serialize:
  "tree_sitter_yuho_external_scanner_deserialize scanner0
     (tree_sitter_yuho_external_scanner_serialize scanner) = scanner"
  by (cases scanner)
     (simp add: tree_sitter_yuho_external_scanner_deserialize_def
        tree_sitter_yuho_external_scanner_serialize_def)

lemma scan_interpolation_end_invariant:
  "scan_interpolation_end lexer scanner = (found, scanner', lexer') \<Longrightarrow>
   in_interpolation scanner \<Longrightarrow> scanner_invariant scanner'"
  by (auto simp: scan_interpolation_end_def scanner_invariant_def Let_def split: if_splits)

lemma scan_string_content_invariant:
  "scan_string_content lexer scanner = Some (found, scanner', lexer') \<Longrightarrow>
   scanner_invariant scanner \<Longrightarrow> scanner_invariant scanner'"
  unfolding scan_string_content_def
  by (drule loop_result) (auto simp: scanner_invariant_def)

lemma scan_after_whitespace:
  "skip_whitespace iswspace lexer = Some lexer1 \<Longrightarrow>
   (if valid_symbols INTERPOLATION_END \<and> in_interpolation scanner
    then scan_interpolation_end lexer1 scanner else (False, scanner, lexer1))
     = (found, scanner1, lexer2) \<Longrightarrow>
   tree_sitter_yuho_external_scanner_scan iswspace scanner lexer valid_symbols =
     (if found then Some (True, scanner1, lexer2)
      else let scanner2 =
                 (if in_interpolation scanner1 \<and> lookahead lexer2 = CH_LBRACE
                  then scanner1\<lparr>interpolation_depth := interpolation_depth scanner1 + 1\<rparr>
                  else scanner1)
           in if valid_symbols STRING_CONTENT \<and> in_string scanner2
              then scan_string_content lexer2 scanner2
              else Some (False, scanner2, lexer2))"
  by (simp add: tree_sitter_yuho_external_scanner_scan_def)

lemma scan_preserves_invariant:
  assumes "tree_sitter_yuho_external_scanner_scan iswspace scanner lexer valid_symbols
      = Some (found, scanner', lexer')"
    and "scanner_invariant scanner"
  shows "scanner_invariant scanner'"
proof -
  obtain lexer1 where l1: "skip_whitespace iswspace lexer = Some lexer1"
    using assms(1) by (auto simp: tree_sitter_yuho_external_scanner_scan_def split: option.splits)
  obtain f1 s1 l2 where m:
    "(if valid_symbols INTERPOLATION_END \<and> in_interpolation scanner
      then scan_interpolation_end lexer1 scanner else (False, scanner, lexer1)) = (f1, s1, l2)"
    by (metis prod_cases3)
  have inv1: "scanner_invariant s1"
    using m assms(2) scan_interpolation_end_invariant by (auto split: if_splits)
  define s2 where "s2 = (if in_interpolation s1 \<and> lookahead l2 = CH_LBRACE
      then s1\<lparr>interpolation_depth := interpolation_depth s1 + 1\<rparr> else s1)"
  have inv2: "scanner_invariant s2"
    using inv1 by (simp add: s2_def scanner_invariant_def)
  have r: "(f1 \<and> scanner' = s1)
      \<or> (valid_symbols STRING_CONTENT \<and> in_string s2
            \<and> scan_string_content l2 s2 = Some (found, scanner', lexer'))
      \<or> scanner' = s2"
    using assms(1) l1 m
    by (auto simp: tree_sitter_yuho_external_scanner_scan_def s2_def Let_def split: if_splits)
  then show ?thesis
    using inv1 inv2 scan_string_content_invariant by blast
qed

section \<open>The properties of the specification\<close>

subsection \<open>Interpolation start\<close>

text \<open>C1. When the string-content loop reaches \<^verbatim>\<open>${\<close>, the call consumes both
  characters, sets \<^verbatim>\<open>in_interpolation\<close>, sets the depth to 1 and returns
  \<^verbatim>\<open>INTERPOLATION_START\<close>; the span should be the two characters \<^verbatim>\<open>${\<close> however much
  literal text the same call has already consumed. The scanner never marks the end of the
  earlier text, so on \<^verbatim>\<open>ab${x}\<close> and a quote the token returned as
  \<^verbatim>\<open>INTERPOLATION_START\<close> spans \<^verbatim>\<open>ab${\<close>; the span is \<^verbatim>\<open>${\<close> only when nothing was
  consumed before, as on \<^verbatim>\<open>${x}\<close> and a quote.\<close>

theorem interpolation_start_span_with_prior_content:
  "tree_sitter_yuho_external_scanner_scan iswspace_C
     \<lparr>in_string = True, in_interpolation = False, interpolation_depth = 0\<rparr>
     \<lparr>token = [], rest = [97, 98, CH_DOLLAR, CH_LBRACE, 120, CH_RBRACE, CH_QUOTE],
      result_symbol = ERROR_SENTINEL\<rparr>
     string_content_valid
   = Some (True,
       \<lparr>in_string = True, in_interpolation = True, interpolation_depth = 1\<rparr>,
       \<lparr>token = [97, 98, CH_DOLLAR, CH_LBRACE], rest = [120, CH_RBRACE, CH_QUOTE],
        result_symbol = INTERPOLATION_START\<rparr>)
   \<and> tree_sitter_yuho_external_scanner_scan iswspace_C
     \<lparr>in_string = True, in_interpolation = False, interpolation_depth = 0\<rparr>
     \<lparr>token = [], rest = [CH_DOLLAR, CH_LBRACE, 120, CH_RBRACE, CH_QUOTE],
      result_symbol = ERROR_SENTINEL\<rparr>
     string_content_valid
   = Some (True,
       \<lparr>in_string = True, in_interpolation = True, interpolation_depth = 1\<rparr>,
       \<lparr>token = [CH_DOLLAR, CH_LBRACE], rest = [120, CH_RBRACE, CH_QUOTE],
        result_symbol = INTERPOLATION_START\<rparr>)"
  by code_simp

subsection \<open>String content up to the closing quote\<close>

text \<open>C2, as amended. In a scan call with \<^verbatim>\<open>in_string\<close> true and \<^verbatim>\<open>STRING_CONTENT\<close>
  valid, let the input ahead be a run of white space (possibly empty), then a non-empty
  text that does not start with white space and holds no NUL, quote, backslash or dollar
  sign, then the closing quote. Unless the call returns \<^verbatim>\<open>INTERPOLATION_END\<close> first
  (that symbol valid, an interpolation active at depth 1 and the text starting with
  \<^verbatim>\<open>}\<close>), it skips the white space, consumes the text up to but not including the
  quote and returns \<^verbatim>\<open>STRING_CONTENT\<close> spanning exactly the text after the skipped white
  space; the quote stays ahead.\<close>

theorem string_content_up_to_quote:
  assumes "in_string scanner" and "valid_symbols STRING_CONTENT" and "token lexer = []"
    and "rest lexer = ws @ content @ CH_QUOTE # tail"
    and "\<forall>c\<in>set ws. iswspace c" and "content \<noteq> []" and "\<not> iswspace (hd content)"
    and "\<forall>c\<in>set content. plain_char c"
    and "\<not> (valid_symbols INTERPOLATION_END \<and> in_interpolation scanner
            \<and> hd content = CH_RBRACE \<and> interpolation_depth scanner = 1)"
  shows "tree_sitter_yuho_external_scanner_scan iswspace scanner lexer valid_symbols
    = Some (True,
        (if valid_symbols INTERPOLATION_END \<and> in_interpolation scanner \<and> hd content = CH_RBRACE
         then scanner\<lparr>interpolation_depth := interpolation_depth scanner - 1\<rparr>
         else if in_interpolation scanner \<and> hd content = CH_LBRACE
         then scanner\<lparr>interpolation_depth := interpolation_depth scanner + 1\<rparr>
         else scanner),
        lexer\<lparr>token := content, rest := CH_QUOTE # tail, result_symbol := STRING_CONTENT\<rparr>)"
proof -
  let ?r = "content @ CH_QUOTE # tail"
  let ?l1 = "lexer\<lparr>rest := ?r\<rparr>"
  obtain c cs where content: "content = c # cs"
    using assms(6) by (cases content) auto
  have la: "lookahead ?l1 = hd content"
    by (simp add: lookahead_def content)
  have l1: "skip_whitespace iswspace lexer = Some ?l1"
    using assms(3,4,5,7) by (intro skip_whitespace_fresh) (simp_all add: content)
  define s1 where "s1 =
    (if valid_symbols INTERPOLATION_END \<and> in_interpolation scanner \<and> hd content = CH_RBRACE
     then scanner\<lparr>interpolation_depth := interpolation_depth scanner - 1\<rparr> else scanner)"
  have nz: "interpolation_depth scanner - 1 \<noteq> 0"
    if "valid_symbols INTERPOLATION_END" "in_interpolation scanner" "hd content = CH_RBRACE"
    using that assms(9) by simp
  have m: "(if valid_symbols INTERPOLATION_END \<and> in_interpolation scanner
            then scan_interpolation_end ?l1 scanner else (False, scanner, ?l1))
       = (False, s1, ?l1)"
    using nz la by (auto simp: scan_interpolation_end_def Let_def s1_def)
  define s2 where "s2 =
    (if in_interpolation s1 \<and> lookahead ?l1 = CH_LBRACE
     then s1\<lparr>interpolation_depth := interpolation_depth s1 + 1\<rparr> else s1)"
  have s2: "s2 =
    (if valid_symbols INTERPOLATION_END \<and> in_interpolation scanner \<and> hd content = CH_RBRACE
     then scanner\<lparr>interpolation_depth := interpolation_depth scanner - 1\<rparr>
     else if in_interpolation scanner \<and> hd content = CH_LBRACE
     then scanner\<lparr>interpolation_depth := interpolation_depth scanner + 1\<rparr>
     else scanner)"
    by (auto simp: s2_def s1_def la)
  have in_s2: "in_string s2"
    using assms(1) by (simp add: s2_def s1_def)
  have scan: "tree_sitter_yuho_external_scanner_scan iswspace scanner lexer valid_symbols
      = scan_string_content ?l1 s2"
    unfolding scan_after_whitespace [where valid_symbols = valid_symbols, OF l1 m]
    using in_s2 assms(2) by (simp add: s2_def Let_def)
  let ?l2 = "?l1\<lparr>token := token ?l1 @ content, rest := CH_QUOTE # tail\<rparr>"
  have "scan_string_content ?l1 s2 = scan_string_content_loop ?l2 s2 (False \<or> content \<noteq> [])"
    unfolding scan_string_content_def using assms(8) by (intro loop_plain_run) simp_all
  also have "\<dots> = Some (True, s2, ?l2\<lparr>result_symbol := STRING_CONTENT\<rparr>)"
    using assms(6) by (simp add: loop_Break body_quote)
  finally show ?thesis
    using scan assms(3) by (simp add: s2)
qed

text \<open>A run of the statement above on a space, \<^verbatim>\<open>a b\<close>, a quote and \<^verbatim>\<open>c\<close>.\<close>

theorem string_content_up_to_quote_witness:
  "tree_sitter_yuho_external_scanner_scan iswspace_C
     \<lparr>in_string = True, in_interpolation = False, interpolation_depth = 0\<rparr>
     \<lparr>token = [], rest = [32, 97, 32, 98, CH_QUOTE, 99], result_symbol = ERROR_SENTINEL\<rparr>
     string_content_valid
   = Some (True,
       \<lparr>in_string = True, in_interpolation = False, interpolation_depth = 0\<rparr>,
       \<lparr>token = [97, 32, 98], rest = [CH_QUOTE, 99], result_symbol = STRING_CONTENT\<rparr>)"
  using string_content_up_to_quote
    [of "\<lparr>in_string = True, in_interpolation = False, interpolation_depth = 0\<rparr>"
        string_content_valid
        "\<lparr>token = [], rest = [32, 97, 32, 98, CH_QUOTE, 99], result_symbol = ERROR_SENTINEL\<rparr>"
        "[32]" "[97, 32, 98]" "[99]" iswspace_C]
  by (simp add: string_content_valid_def iswspace_C_def plain_char_def)

text \<open>Without the amendments the property fails: on a space, \<^verbatim>\<open>a\<close> and a quote the span is
  \<^verbatim>\<open>a\<close> without the space; on two spaces before the quote no token is returned; a NUL character
  inside the text ends the token; and with an interpolation active at depth 1 a leading
  \<^verbatim>\<open>}\<close> is returned as \<^verbatim>\<open>INTERPOLATION_END\<close>.\<close>

theorem string_content_span_counterexample:
  "tree_sitter_yuho_external_scanner_scan iswspace_C
     \<lparr>in_string = True, in_interpolation = False, interpolation_depth = 0\<rparr>
     \<lparr>token = [], rest = [32, 97, CH_QUOTE], result_symbol = ERROR_SENTINEL\<rparr>
     string_content_valid
   = Some (True,
       \<lparr>in_string = True, in_interpolation = False, interpolation_depth = 0\<rparr>,
       \<lparr>token = [97], rest = [CH_QUOTE], result_symbol = STRING_CONTENT\<rparr>)
   \<and> [97] \<noteq> [32, 97 :: int]
   \<and> tree_sitter_yuho_external_scanner_scan iswspace_C
     \<lparr>in_string = True, in_interpolation = False, interpolation_depth = 0\<rparr>
     \<lparr>token = [], rest = [32, 32, CH_QUOTE], result_symbol = ERROR_SENTINEL\<rparr>
     string_content_valid
   = Some (False,
       \<lparr>in_string = True, in_interpolation = False, interpolation_depth = 0\<rparr>,
       \<lparr>token = [], rest = [CH_QUOTE], result_symbol = ERROR_SENTINEL\<rparr>)
   \<and> tree_sitter_yuho_external_scanner_scan iswspace_C
     \<lparr>in_string = True, in_interpolation = False, interpolation_depth = 0\<rparr>
     \<lparr>token = [], rest = [97, CH_NUL, 98, CH_QUOTE], result_symbol = ERROR_SENTINEL\<rparr>
     string_content_valid
   = Some (True,
       \<lparr>in_string = True, in_interpolation = False, interpolation_depth = 0\<rparr>,
       \<lparr>token = [97], rest = [CH_NUL, 98, CH_QUOTE], result_symbol = STRING_CONTENT\<rparr>)
   \<and> tree_sitter_yuho_external_scanner_scan iswspace_C
     \<lparr>in_string = True, in_interpolation = True, interpolation_depth = 1\<rparr>
     \<lparr>token = [], rest = [CH_RBRACE, 97, CH_QUOTE], result_symbol = ERROR_SENTINEL\<rparr>
     all_valid
   = Some (True,
       \<lparr>in_string = True, in_interpolation = False, interpolation_depth = 0\<rparr>,
       \<lparr>token = [CH_RBRACE], rest = [97, CH_QUOTE], result_symbol = INTERPOLATION_END\<rparr>)"
  by code_simp

subsection \<open>Interpolation end\<close>

text \<open>C3, as amended. In a scan call with \<^verbatim>\<open>INTERPOLATION_END\<close> valid and
  \<^verbatim>\<open>in_interpolation\<close> true whose next character after white space is \<^verbatim>\<open>}\<close>, the
  depth is decremented (modulo 256). If the result is zero, the \<^verbatim>\<open>}\<close> is consumed,
  \<^verbatim>\<open>in_interpolation\<close> is cleared and \<^verbatim>\<open>INTERPOLATION_END\<close> is returned, spanning that one
  character. If the result is not zero, interpolation-end matching consumes nothing and
  reports no token, the decrement persisting; the scan call then returns no token and
  leaves the \<^verbatim>\<open>}\<close> ahead, unless \<^verbatim>\<open>STRING_CONTENT\<close> is valid and \<^verbatim>\<open>in_string\<close> is
  true, in which case the call goes on into string-content scanning with the decremented
  depth. If the next character is not \<^verbatim>\<open>}\<close>, interpolation-end matching reports no token
  and leaves state and cursor unchanged.\<close>

theorem interpolation_end_matching:
  assumes "valid_symbols INTERPOLATION_END" and "in_interpolation scanner"
    and "token lexer = []" and "rest lexer = ws @ CH_RBRACE # cs"
    and "\<forall>c\<in>set ws. iswspace c" and "\<not> iswspace CH_RBRACE"
  shows
    "(interpolation_depth scanner - 1 = 0 \<longrightarrow>
        tree_sitter_yuho_external_scanner_scan iswspace scanner lexer valid_symbols
          = Some (True,
                  scanner\<lparr>in_interpolation := False, interpolation_depth := 0\<rparr>,
                  lexer\<lparr>token := [CH_RBRACE], rest := cs, result_symbol := INTERPOLATION_END\<rparr>))
     \<and> (interpolation_depth scanner - 1 \<noteq> 0 \<longrightarrow>
        scan_interpolation_end (lexer\<lparr>rest := CH_RBRACE # cs\<rparr>) scanner
          = (False, scanner\<lparr>interpolation_depth := interpolation_depth scanner - 1\<rparr>,
             lexer\<lparr>rest := CH_RBRACE # cs\<rparr>)
        \<and> tree_sitter_yuho_external_scanner_scan iswspace scanner lexer valid_symbols
          = (if valid_symbols STRING_CONTENT \<and> in_string scanner
             then scan_string_content (lexer\<lparr>rest := CH_RBRACE # cs\<rparr>)
                    (scanner\<lparr>interpolation_depth := interpolation_depth scanner - 1\<rparr>)
             else Some (False,
                        scanner\<lparr>interpolation_depth := interpolation_depth scanner - 1\<rparr>,
                        lexer\<lparr>rest := CH_RBRACE # cs\<rparr>)))
     \<and> (lookahead lexer0 \<noteq> CH_RBRACE \<longrightarrow>
        scan_interpolation_end lexer0 scanner0 = (False, scanner0, lexer0))"
proof -
  let ?l1 = "lexer\<lparr>rest := CH_RBRACE # cs\<rparr>"
  let ?s1 = "scanner\<lparr>interpolation_depth := interpolation_depth scanner - 1\<rparr>"
  have l1: "skip_whitespace iswspace lexer = Some ?l1"
    using assms(3-6) by (intro skip_whitespace_fresh) simp_all
  have zero: "tree_sitter_yuho_external_scanner_scan iswspace scanner lexer valid_symbols
      = Some (True, scanner\<lparr>in_interpolation := False, interpolation_depth := 0\<rparr>,
              lexer\<lparr>token := [CH_RBRACE], rest := cs, result_symbol := INTERPOLATION_END\<rparr>)"
    if z: "interpolation_depth scanner - 1 = 0"
  proof -
    have m: "(if valid_symbols INTERPOLATION_END \<and> in_interpolation scanner
              then scan_interpolation_end ?l1 scanner else (False, scanner, ?l1))
         = (True, scanner\<lparr>in_interpolation := False, interpolation_depth := 0\<rparr>,
            lexer\<lparr>token := [CH_RBRACE], rest := cs, result_symbol := INTERPOLATION_END\<rparr>)"
      using assms(1-3) z by (simp add: scan_interpolation_end_def Let_def)
    show ?thesis
      unfolding scan_after_whitespace [where valid_symbols = valid_symbols, OF l1 m] by simp
  qed
  have pos: "scan_interpolation_end ?l1 scanner = (False, ?s1, ?l1)"
    if p: "interpolation_depth scanner - 1 \<noteq> 0"
    using assms(2) p by (simp add: scan_interpolation_end_def Let_def)
  have pos_scan: "tree_sitter_yuho_external_scanner_scan iswspace scanner lexer valid_symbols
      = (if valid_symbols STRING_CONTENT \<and> in_string scanner
         then scan_string_content ?l1 ?s1 else Some (False, ?s1, ?l1))"
    if p: "interpolation_depth scanner - 1 \<noteq> 0"
  proof -
    have m: "(if valid_symbols INTERPOLATION_END \<and> in_interpolation scanner
              then scan_interpolation_end ?l1 scanner else (False, scanner, ?l1))
         = (False, ?s1, ?l1)"
      using assms(1,2) pos [OF p] by simp
    show ?thesis
      unfolding scan_after_whitespace [where valid_symbols = valid_symbols, OF l1 m]
      by (simp add: Let_def)
  qed
  have other: "scan_interpolation_end lexer0 scanner0 = (False, scanner0, lexer0)"
    if "lookahead lexer0 \<noteq> CH_RBRACE"
    using that by (simp add: scan_interpolation_end_def)
  show ?thesis using zero pos pos_scan other by blast
qed

text \<open>Runs of the statement above: depth 1 before a space and \<^verbatim>\<open>}a\<close>, depth 2 before \<^verbatim>\<open>}}\<close>
  with only \<^verbatim>\<open>INTERPOLATION_END\<close> valid, and the matching alone before \<^verbatim>\<open>a\<close>.\<close>

theorem interpolation_end_matching_witness:
  "tree_sitter_yuho_external_scanner_scan iswspace_C
     \<lparr>in_string = True, in_interpolation = True, interpolation_depth = 1\<rparr>
     \<lparr>token = [], rest = [32, CH_RBRACE, 97, CH_QUOTE], result_symbol = ERROR_SENTINEL\<rparr>
     all_valid
   = Some (True,
       \<lparr>in_string = True, in_interpolation = False, interpolation_depth = 0\<rparr>,
       \<lparr>token = [CH_RBRACE], rest = [97, CH_QUOTE], result_symbol = INTERPOLATION_END\<rparr>)
   \<and> tree_sitter_yuho_external_scanner_scan iswspace_C
     \<lparr>in_string = True, in_interpolation = True, interpolation_depth = 2\<rparr>
     \<lparr>token = [], rest = [CH_RBRACE, CH_RBRACE], result_symbol = ERROR_SENTINEL\<rparr>
     interpolation_end_valid
   = Some (False,
       \<lparr>in_string = True, in_interpolation = True, interpolation_depth = 1\<rparr>,
       \<lparr>token = [], rest = [CH_RBRACE, CH_RBRACE], result_symbol = ERROR_SENTINEL\<rparr>)
   \<and> scan_interpolation_end
       \<lparr>token = [], rest = [97], result_symbol = ERROR_SENTINEL\<rparr>
       \<lparr>in_string = True, in_interpolation = True, interpolation_depth = 2\<rparr>
     = (False, \<lparr>in_string = True, in_interpolation = True, interpolation_depth = 2\<rparr>,
        \<lparr>token = [], rest = [97], result_symbol = ERROR_SENTINEL\<rparr>)"
  using interpolation_end_matching
    [of all_valid "\<lparr>in_string = True, in_interpolation = True, interpolation_depth = 1\<rparr>"
        "\<lparr>token = [], rest = [32, CH_RBRACE, 97, CH_QUOTE], result_symbol = ERROR_SENTINEL\<rparr>"
        "[32]" "[97, CH_QUOTE]" iswspace_C]
    interpolation_end_matching
    [of interpolation_end_valid
        "\<lparr>in_string = True, in_interpolation = True, interpolation_depth = 2\<rparr>"
        "\<lparr>token = [], rest = [CH_RBRACE, CH_RBRACE], result_symbol = ERROR_SENTINEL\<rparr>"
        "[]" "[CH_RBRACE]" iswspace_C
        "\<lparr>token = [], rest = [97], result_symbol = ERROR_SENTINEL\<rparr>"
        "\<lparr>in_string = True, in_interpolation = True, interpolation_depth = 2\<rparr>"]
  by (simp add: all_valid_def interpolation_end_valid_def iswspace_C_def)

text \<open>Without the amendment the property fails: at depth 2 before \<^verbatim>\<open>}\<close> and a quote, inside a
  string and with every symbol valid, the call consumes the \<^verbatim>\<open>}\<close> and returns it as
  \<^verbatim>\<open>STRING_CONTENT\<close>.\<close>

theorem nested_close_brace_counterexample:
  "tree_sitter_yuho_external_scanner_scan iswspace_C
     \<lparr>in_string = True, in_interpolation = True, interpolation_depth = 2\<rparr>
     \<lparr>token = [], rest = [CH_RBRACE, CH_QUOTE], result_symbol = ERROR_SENTINEL\<rparr>
     all_valid
   = Some (True,
       \<lparr>in_string = True, in_interpolation = True, interpolation_depth = 1\<rparr>,
       \<lparr>token = [CH_RBRACE], rest = [CH_QUOTE], result_symbol = STRING_CONTENT\<rparr>)"
  by code_simp

subsection \<open>The codec\<close>

text \<open>C4. For every scanner state, serialize emits exactly 3 bytes in the order
  \<^verbatim>\<open>in_string\<close>, \<^verbatim>\<open>in_interpolation\<close>, \<^verbatim>\<open>interpolation_depth\<close>, each boolean as 0 or 1,
  and deserialize applied to these bytes restores the state, whatever the state written
  over.\<close>

theorem serialize_layout_and_roundtrip:
  "length (tree_sitter_yuho_external_scanner_serialize s) = 3
   \<and> tree_sitter_yuho_external_scanner_serialize s ! 0 = (if in_string s then 1 else 0)
   \<and> tree_sitter_yuho_external_scanner_serialize s ! 1 = (if in_interpolation s then 1 else 0)
   \<and> tree_sitter_yuho_external_scanner_serialize s ! 2 = interpolation_depth s
   \<and> tree_sitter_yuho_external_scanner_deserialize s0
         (tree_sitter_yuho_external_scanner_serialize s) = s"
proof -
  have "tree_sitter_yuho_external_scanner_deserialize s0
          (tree_sitter_yuho_external_scanner_serialize s) = s"
    by (rule deserialize_serialize)
  then show ?thesis
    by (simp add: tree_sitter_yuho_external_scanner_serialize_def)
qed

theorem serialize_layout_and_roundtrip_witness:
  "tree_sitter_yuho_external_scanner_serialize
     \<lparr>in_string = True, in_interpolation = True, interpolation_depth = 2\<rparr> ! 0 = 1
   \<and> tree_sitter_yuho_external_scanner_deserialize tree_sitter_yuho_external_scanner_create
        (tree_sitter_yuho_external_scanner_serialize
           \<lparr>in_string = True, in_interpolation = True, interpolation_depth = 2\<rparr>)
      = \<lparr>in_string = True, in_interpolation = True, interpolation_depth = 2\<rparr>"
  using serialize_layout_and_roundtrip
    [of "\<lparr>in_string = True, in_interpolation = True, interpolation_depth = 2\<rparr>"
        tree_sitter_yuho_external_scanner_create]
  by simp

text \<open>C5. On a buffer shorter than 3 bytes, whatever it holds, deserialize resets the
  state to \<^verbatim>\<open>in_string\<close> false, \<^verbatim>\<open>in_interpolation\<close> false and depth 0; on a buffer of at
  least 3 bytes it restores the three fields from the first three bytes (a flag is true
  exactly when its byte is not zero).\<close>

theorem deserialize_short_or_full:
  "(length buffer < 3 \<longrightarrow>
      tree_sitter_yuho_external_scanner_deserialize scanner buffer
        = \<lparr>in_string = False, in_interpolation = False, interpolation_depth = 0\<rparr>)
   \<and> (length buffer \<ge> 3 \<longrightarrow>
      tree_sitter_yuho_external_scanner_deserialize scanner buffer
        = \<lparr>in_string = (buffer ! 0 \<noteq> 0), in_interpolation = (buffer ! 1 \<noteq> 0),
           interpolation_depth = buffer ! 2\<rparr>)"
  by (cases scanner) (simp add: tree_sitter_yuho_external_scanner_deserialize_def)

theorem deserialize_short_or_full_witness:
  "length [7, 1 :: byte] < 3
   \<and> tree_sitter_yuho_external_scanner_deserialize
        \<lparr>in_string = True, in_interpolation = True, interpolation_depth = 4\<rparr> [7, 1]
      = \<lparr>in_string = False, in_interpolation = False, interpolation_depth = 0\<rparr>
   \<and> length [1, 0, 5, 9 :: byte] \<ge> 3
   \<and> tree_sitter_yuho_external_scanner_deserialize
        tree_sitter_yuho_external_scanner_create [1, 0, 5, 9]
      = \<lparr>in_string = True, in_interpolation = False, interpolation_depth = 5\<rparr>"
  using deserialize_short_or_full
    [of "[7, 1]" "\<lparr>in_string = True, in_interpolation = True, interpolation_depth = 4\<rparr>"]
    deserialize_short_or_full [of "[1, 0, 5, 9]" tree_sitter_yuho_external_scanner_create]
  by simp

subsection \<open>Escapes\<close>

text \<open>C6, as amended. During string-content scanning, when the next character is a
  backslash and a character other than NUL follows (the scanner takes a NUL lookahead
  for the end of input), the backslash and that one character, whatever it is (a quote,
  a backslash and a dollar sign included), are consumed as two characters of content: the
  pass continues the loop with \<^verbatim>\<open>has_content\<close> true and the scanner state untouched, so
  the escaped character neither ends the literal nor starts an interpolation. In
  particular after an escaped dollar sign a following \<^verbatim>\<open>{\<close> is consumed as content
  too.\<close>

theorem escape_consumes_two:
  assumes "rest lexer = CH_BACKSLASH # c # cs" and "c \<noteq> CH_NUL"
  shows "scan_string_content_body lexer scanner has_content
           = Continue (lexer\<lparr>token := token lexer @ [CH_BACKSLASH, c], rest := cs\<rparr>) True
         \<and> scan_string_content_loop lexer scanner has_content
           = scan_string_content_loop
               (lexer\<lparr>token := token lexer @ [CH_BACKSLASH, c], rest := cs\<rparr>) scanner True
         \<and> (c = CH_DOLLAR \<longrightarrow> (\<forall>cs'. cs = CH_LBRACE # cs' \<longrightarrow>
              scan_string_content_loop lexer scanner has_content
                = scan_string_content_loop
                    (lexer\<lparr>token := token lexer @ [CH_BACKSLASH, CH_DOLLAR, CH_LBRACE],
                           rest := cs'\<rparr>) scanner True))"
proof -
  let ?l = "lexer\<lparr>token := token lexer @ [CH_BACKSLASH, c], rest := cs\<rparr>"
  have b: "scan_string_content_body lexer scanner has_content = Continue ?l True"
    using assms by (rule body_escape)
  have l: "scan_string_content_loop lexer scanner has_content
             = scan_string_content_loop ?l scanner True"
    using b by (rule loop_Continue)
  have "scan_string_content_loop ?l scanner True
          = scan_string_content_loop
              (lexer\<lparr>token := token lexer @ [CH_BACKSLASH, CH_DOLLAR, CH_LBRACE],
                     rest := cs'\<rparr>) scanner True"
    if "c = CH_DOLLAR" "cs = CH_LBRACE # cs'" for cs'
  proof -
    have "scan_string_content_body ?l scanner True
            = Continue (?l\<lparr>token := token ?l @ [CH_LBRACE], rest := cs'\<rparr>) True"
      using that by (intro body_plain) (simp_all add: plain_char_def)
    then show ?thesis using that by (simp add: loop_Continue)
  qed
  then show ?thesis using b l by simp
qed

text \<open>A run of the statement above on a backslash, a quote, \<^verbatim>\<open>a\<close> and a quote.\<close>

theorem escape_consumes_two_witness:
  "scan_string_content_loop
     \<lparr>token = [], rest = [CH_BACKSLASH, CH_QUOTE, 97, CH_QUOTE], result_symbol = ERROR_SENTINEL\<rparr>
     \<lparr>in_string = True, in_interpolation = False, interpolation_depth = 0\<rparr> False
   = scan_string_content_loop
     \<lparr>token = [CH_BACKSLASH, CH_QUOTE], rest = [97, CH_QUOTE], result_symbol = ERROR_SENTINEL\<rparr>
     \<lparr>in_string = True, in_interpolation = False, interpolation_depth = 0\<rparr> True"
  using escape_consumes_two
    [of "\<lparr>token = [], rest = [CH_BACKSLASH, CH_QUOTE, 97, CH_QUOTE], result_symbol = ERROR_SENTINEL\<rparr>"
        CH_QUOTE "[97, CH_QUOTE]"
        "\<lparr>in_string = True, in_interpolation = False, interpolation_depth = 0\<rparr>" False]
  by simp

text \<open>Without the amendment the property fails: before a backslash, a NUL character and
  \<^verbatim>\<open>a\<close>, the pass consumes the backslash alone, and the call reports no token.\<close>

theorem escape_before_nul_counterexample:
  "scan_string_content_body
     \<lparr>token = [], rest = [CH_BACKSLASH, CH_NUL, 97], result_symbol = ERROR_SENTINEL\<rparr>
     \<lparr>in_string = True, in_interpolation = False, interpolation_depth = 0\<rparr> False
   = Continue \<lparr>token = [CH_BACKSLASH], rest = [CH_NUL, 97], result_symbol = ERROR_SENTINEL\<rparr> False
   \<and> tree_sitter_yuho_external_scanner_scan iswspace_C
     \<lparr>in_string = True, in_interpolation = False, interpolation_depth = 0\<rparr>
     \<lparr>token = [], rest = [CH_BACKSLASH, CH_NUL, 97], result_symbol = ERROR_SENTINEL\<rparr>
     string_content_valid
   = Some (False,
       \<lparr>in_string = True, in_interpolation = False, interpolation_depth = 0\<rparr>,
       \<lparr>token = [CH_BACKSLASH], rest = [CH_NUL, 97], result_symbol = ERROR_SENTINEL\<rparr>)"
  by code_simp

text \<open>C7. When the input ends right after a backslash, only the backslash is consumed,
  as trailing content; in particular a call whose remaining input is a single backslash
  should report \<^verbatim>\<open>STRING_CONTENT\<close> spanning it. The scanner consumes the backslash
  without setting \<^verbatim>\<open>has_content\<close>, so on a lone backslash the call reports no token;
  after earlier content, as on \<^verbatim>\<open>a\<close> and a backslash, the backslash is part of the reported span.\<close>

theorem lone_backslash_reports_no_token:
  "tree_sitter_yuho_external_scanner_scan iswspace_C
     \<lparr>in_string = True, in_interpolation = False, interpolation_depth = 0\<rparr>
     \<lparr>token = [], rest = [CH_BACKSLASH], result_symbol = ERROR_SENTINEL\<rparr>
     string_content_valid
   = Some (False,
       \<lparr>in_string = True, in_interpolation = False, interpolation_depth = 0\<rparr>,
       \<lparr>token = [CH_BACKSLASH], rest = [], result_symbol = ERROR_SENTINEL\<rparr>)
   \<and> tree_sitter_yuho_external_scanner_scan iswspace_C
     \<lparr>in_string = True, in_interpolation = False, interpolation_depth = 0\<rparr>
     \<lparr>token = [], rest = [97, CH_BACKSLASH], result_symbol = ERROR_SENTINEL\<rparr>
     string_content_valid
   = Some (True,
       \<lparr>in_string = True, in_interpolation = False, interpolation_depth = 0\<rparr>,
       \<lparr>token = [97, CH_BACKSLASH], rest = [], result_symbol = STRING_CONTENT\<rparr>)"
  by code_simp

subsection \<open>The invariant\<close>

text \<open>C8. Every state reachable from the created state through scan calls and through
  saving and restoring satisfies the invariant that the depth is 0 whenever
  \<^verbatim>\<open>in_interpolation\<close> is false; every single scan call, on any input and with any set of
  valid symbols, takes a state satisfying the invariant to one satisfying it, the
  created state satisfies it, and saving and restoring preserves it.\<close>

theorem scan_invariant_preserved:
  "(reachable iswspace scanner \<longrightarrow> scanner_invariant scanner)
   \<and> (scanner_invariant scanner \<and>
        tree_sitter_yuho_external_scanner_scan iswspace scanner lexer valid_symbols
          = Some (found, scanner', lexer') \<longrightarrow> scanner_invariant scanner')
   \<and> scanner_invariant tree_sitter_yuho_external_scanner_create
   \<and> (scanner_invariant scanner \<longrightarrow>
        scanner_invariant (tree_sitter_yuho_external_scanner_deserialize scanner0
          (tree_sitter_yuho_external_scanner_serialize scanner)))"
proof -
  have c: "scanner_invariant tree_sitter_yuho_external_scanner_create"
    by (simp add: scanner_invariant_def tree_sitter_yuho_external_scanner_create_def)
  have "scanner_invariant s" if "reachable iswspace s" for s
    using that
  proof (induction rule: reachable.induct)
    case created
    show ?case by (rule c)
  next
    case (scanned scanner lexer valid_symbols found scanner' lexer')
    then show ?case by (blast intro: scan_preserves_invariant)
  next
    case (restored scanner scanner0)
    then show ?case by (simp add: deserialize_serialize)
  qed
  then show ?thesis
    using c scan_preserves_invariant by (auto simp: deserialize_serialize)
qed

theorem scan_invariant_preserved_witness:
  "scanner_invariant \<lparr>in_string = True, in_interpolation = False, interpolation_depth = 0\<rparr>
   \<and> tree_sitter_yuho_external_scanner_scan iswspace_C
       \<lparr>in_string = True, in_interpolation = False, interpolation_depth = 0\<rparr>
       \<lparr>token = [], rest = [CH_DOLLAR, CH_LBRACE, 120], result_symbol = ERROR_SENTINEL\<rparr>
       all_valid
     = Some (True,
         \<lparr>in_string = True, in_interpolation = True, interpolation_depth = 1\<rparr>,
         \<lparr>token = [CH_DOLLAR, CH_LBRACE], rest = [120], result_symbol = INTERPOLATION_START\<rparr>)
   \<and> scanner_invariant \<lparr>in_string = True, in_interpolation = True, interpolation_depth = 1\<rparr>
   \<and> reachable iswspace_C tree_sitter_yuho_external_scanner_create
   \<and> scanner_invariant tree_sitter_yuho_external_scanner_create"
proof -
  have inv: "scanner_invariant
      \<lparr>in_string = True, in_interpolation = False, interpolation_depth = 0\<rparr>"
    by (simp add: scanner_invariant_def)
  have run: "tree_sitter_yuho_external_scanner_scan iswspace_C
       \<lparr>in_string = True, in_interpolation = False, interpolation_depth = 0\<rparr>
       \<lparr>token = [], rest = [CH_DOLLAR, CH_LBRACE, 120], result_symbol = ERROR_SENTINEL\<rparr>
       all_valid
     = Some (True,
         \<lparr>in_string = True, in_interpolation = True, interpolation_depth = 1\<rparr>,
         \<lparr>token = [CH_DOLLAR, CH_LBRACE], rest = [120], result_symbol = INTERPOLATION_START\<rparr>)"
    by code_simp
  have r: "reachable iswspace_C tree_sitter_yuho_external_scanner_create"
    by (rule reachable.created)
  show ?thesis
    using inv run r
      scan_invariant_preserved
        [of iswspace_C "\<lparr>in_string = True, in_interpolation = False, interpolation_depth = 0\<rparr>"
            "\<lparr>token = [], rest = [CH_DOLLAR, CH_LBRACE, 120], result_symbol = ERROR_SENTINEL\<rparr>"
            all_valid True
            "\<lparr>in_string = True, in_interpolation = True, interpolation_depth = 1\<rparr>"
            "\<lparr>token = [CH_DOLLAR, CH_LBRACE], rest = [120], result_symbol = INTERPOLATION_START\<rparr>"]
      scan_invariant_preserved [of iswspace_C tree_sitter_yuho_external_scanner_create]
    by blast
qed

subsection \<open>Termination\<close>

text \<open>C9. Every scan call returns, for every input, state and set of valid symbols,
  provided the C library does not class NUL (the lookahead at the end of input) as white
  space. Both loops return by themselves; the white-space loop continues only by
  advancing over a character, the string-content loop stops at the end of input, and
  every pass of it that continues leaves fewer characters ahead.\<close>

theorem scan_terminates:
  assumes "\<not> iswspace CH_NUL"
  shows "(\<exists>r. tree_sitter_yuho_external_scanner_scan iswspace scanner lexer valid_symbols = Some r)
    \<and> (\<exists>lexer'. skip_whitespace iswspace lexer = Some lexer')
    \<and> (\<exists>r. scan_string_content lexer scanner = Some r)
    \<and> (iswspace (lookahead lexer) \<longrightarrow> length (rest (skip lexer)) < length (rest lexer))
    \<and> (eof lexer \<longrightarrow> \<not> iswspace (lookahead lexer)
          \<and> scan_string_content_body lexer scanner has_content = Break)
    \<and> (\<forall>lexer' has_content'.
          scan_string_content_body lexer scanner has_content = Continue lexer' has_content'
          \<longrightarrow> length (rest lexer') < length (rest lexer))"
proof -
  obtain lexer1 where l1: "skip_whitespace iswspace lexer = Some lexer1"
    using assms skip_whitespace_terminates [of iswspace lexer] by blast
  have sc: "\<exists>r. scan_string_content l s = Some r" for l s
    unfolding scan_string_content_def by (rule loop_terminates)
  have "\<exists>r. tree_sitter_yuho_external_scanner_scan iswspace scanner lexer valid_symbols = Some r"
  proof -
    obtain f1 s1 l2 where m:
      "(if valid_symbols INTERPOLATION_END \<and> in_interpolation scanner
        then scan_interpolation_end lexer1 scanner else (False, scanner, lexer1)) = (f1, s1, l2)"
      by (metis prod_cases3)
    show ?thesis
      unfolding scan_after_whitespace [where valid_symbols = valid_symbols, OF l1 m]
        using sc by (auto simp: Let_def)
  qed
  moreover have "iswspace (lookahead lexer) \<longrightarrow> length (rest (skip lexer)) < length (rest lexer)"
    using assms by (cases "rest lexer") auto
  moreover have "eof lexer \<longrightarrow> \<not> iswspace (lookahead lexer)
      \<and> scan_string_content_body lexer scanner has_content = Break"
    using assms by (simp add: eof_def body_eof)
  ultimately show ?thesis
    using l1 sc body_progress by blast
qed

theorem scan_terminates_witness:
  "\<not> iswspace_C CH_NUL
   \<and> (\<exists>r. tree_sitter_yuho_external_scanner_scan iswspace_C
        \<lparr>in_string = True, in_interpolation = False, interpolation_depth = 0\<rparr>
        \<lparr>token = [], rest = [32, 97, CH_BACKSLASH], result_symbol = ERROR_SENTINEL\<rparr>
        all_valid = Some r)"
  using scan_terminates
    [of iswspace_C "\<lparr>in_string = True, in_interpolation = False, interpolation_depth = 0\<rparr>"
        "\<lparr>token = [], rest = [32, 97, CH_BACKSLASH], result_symbol = ERROR_SENTINEL\<rparr>"
        all_valid]
  by (simp add: iswspace_C_def)

subsection \<open>The error sentinel\<close>

text \<open>C10. Whenever scan reports a token, its kind is \<^verbatim>\<open>STRING_CONTENT\<close>,
  \<^verbatim>\<open>INTERPOLATION_START\<close> or \<^verbatim>\<open>INTERPOLATION_END\<close>, never \<^verbatim>\<open>ERROR_SENTINEL\<close>; and
  whether \<^verbatim>\<open>ERROR_SENTINEL\<close> is among the valid symbols changes nothing in the result,
  the consumed span or the resulting state.\<close>

theorem error_sentinel_never_produced:
  "(tree_sitter_yuho_external_scanner_scan iswspace scanner lexer valid_symbols
      = Some (True, scanner', lexer') \<longrightarrow>
      result_symbol lexer' = STRING_CONTENT \<or> result_symbol lexer' = INTERPOLATION_START
      \<or> result_symbol lexer' = INTERPOLATION_END)
   \<and> tree_sitter_yuho_external_scanner_scan iswspace scanner lexer
        (valid_symbols(ERROR_SENTINEL := b))
      = tree_sitter_yuho_external_scanner_scan iswspace scanner lexer valid_symbols"
proof -
  have "result_symbol lexer' = STRING_CONTENT \<or> result_symbol lexer' = INTERPOLATION_START
      \<or> result_symbol lexer' = INTERPOLATION_END"
    if a: "tree_sitter_yuho_external_scanner_scan iswspace scanner lexer valid_symbols
      = Some (True, scanner', lexer')"
  proof -
    obtain lexer1 where l1: "skip_whitespace iswspace lexer = Some lexer1"
      using a by (auto simp: tree_sitter_yuho_external_scanner_scan_def split: option.splits)
    obtain f1 s1 l2 where m:
      "(if valid_symbols INTERPOLATION_END \<and> in_interpolation scanner
        then scan_interpolation_end lexer1 scanner else (False, scanner, lexer1)) = (f1, s1, l2)"
      by (metis prod_cases3)
    have e: "f1 \<longrightarrow> result_symbol l2 = INTERPOLATION_END"
      using m by (auto simp: scan_interpolation_end_def Let_def split: if_splits)
    have "(f1 \<and> lexer' = l2) \<or> (\<exists>s2. scan_string_content l2 s2 = Some (True, scanner', lexer'))"
      using a l1 m
      by (auto simp: tree_sitter_yuho_external_scanner_scan_def Let_def split: if_splits)
    then show ?thesis
      using e loop_result unfolding scan_string_content_def by blast
  qed
  moreover have "tree_sitter_yuho_external_scanner_scan iswspace scanner lexer
        (valid_symbols(ERROR_SENTINEL := b))
      = tree_sitter_yuho_external_scanner_scan iswspace scanner lexer valid_symbols"
    by (simp add: tree_sitter_yuho_external_scanner_scan_def Let_def split: option.split prod.split)
  ultimately show ?thesis by blast
qed

theorem error_sentinel_never_produced_witness:
  "tree_sitter_yuho_external_scanner_scan iswspace_C
     \<lparr>in_string = True, in_interpolation = False, interpolation_depth = 0\<rparr>
     \<lparr>token = [], rest = [97, CH_QUOTE], result_symbol = ERROR_SENTINEL\<rparr>
     all_valid
   = Some (True,
       \<lparr>in_string = True, in_interpolation = False, interpolation_depth = 0\<rparr>,
       \<lparr>token = [97], rest = [CH_QUOTE], result_symbol = STRING_CONTENT\<rparr>)
   \<and> result_symbol \<lparr>token = [97], rest = [CH_QUOTE], result_symbol = STRING_CONTENT\<rparr>
       \<noteq> ERROR_SENTINEL"
proof -
  have run: "tree_sitter_yuho_external_scanner_scan iswspace_C
     \<lparr>in_string = True, in_interpolation = False, interpolation_depth = 0\<rparr>
     \<lparr>token = [], rest = [97, CH_QUOTE], result_symbol = ERROR_SENTINEL\<rparr>
     all_valid
   = Some (True,
       \<lparr>in_string = True, in_interpolation = False, interpolation_depth = 0\<rparr>,
       \<lparr>token = [97], rest = [CH_QUOTE], result_symbol = STRING_CONTENT\<rparr>)"
    by code_simp
  show ?thesis
    using run error_sentinel_never_produced
      [of iswspace_C "\<lparr>in_string = True, in_interpolation = False, interpolation_depth = 0\<rparr>"
          "\<lparr>token = [], rest = [97, CH_QUOTE], result_symbol = ERROR_SENTINEL\<rparr>"
          all_valid
          "\<lparr>in_string = True, in_interpolation = False, interpolation_depth = 0\<rparr>"
          "\<lparr>token = [97], rest = [CH_QUOTE], result_symbol = STRING_CONTENT\<rparr>"]
    by auto
qed

end
